theory Spec2Isabelle
  imports Main "HOL-Library.Sublist"
begin

section \<open>The NixOS test driver (nixos/lib/test-driver/test-driver.py)\<close>

text \<open>
  Python strings are modelled as \<^typ>\<open>string\<close>: texts whose code points are below 256.
  A Python exception of class \<open>Exception\<close> is a value of \<open>exn\<close>; a function that may raise
  returns \<open>exn + 'a\<close>, and one whose loop may never return gives an \<open>option\<close>, with
  \<open>None\<close> for "does not return". What is raised outside the class \<open>Exception\<close>
  (\<open>SystemExit\<close>, \<open>KeyboardInterrupt\<close>) is not a value of \<open>exn\<close>, and neither are the errors
  of the operating system on sockets and processes.
\<close>

datatype exn = Exception string | AssertionError | AttributeError string

fun exn_str :: "exn \<Rightarrow> string" where
  "exn_str (Exception msg) = msg"
| "exn_str AssertionError = []"
| "exn_str (AttributeError msg) = msg"

subsection \<open>Text helpers of the Python library\<close>

definition startswith :: "string \<Rightarrow> string \<Rightarrow> bool" where
  "startswith s p = (take (length p) s = p)"

definition endswith :: "string \<Rightarrow> string \<Rightarrow> bool" where
  "endswith s p = (length p \<le> length s \<and> drop (length s - length p) s = p)"

definition digit_char :: "nat \<Rightarrow> char" where
  "digit_char d = char_of (48 + d)"

fun str_of_nat :: "nat \<Rightarrow> string" where
  "str_of_nat n = (if n < 10 then [digit_char n] else str_of_nat (n div 10) @ [digit_char (n mod 10)])"

declare str_of_nat.simps [simp del]

definition str_of_int :: "int \<Rightarrow> string" where
  "str_of_int i = (if i < 0 then CHR ''-'' # str_of_nat (nat (- i)) else str_of_nat (nat i))"

definition int_of_digits :: "string \<Rightarrow> int" where
  "int_of_digits ds = foldl (\<lambda>a c. 10 * a + (int (of_char c) - 48)) 0 ds"

subsection \<open>retry\<close>

text \<open>
  The predicate handed to \<open>retry\<close> works on a state of its own and either raises or
  returns a truth value. The trace lists, in order, every call of the predicate (with the
  \<open>last\<close> flag it received and what it gave back) and every \<open>time.sleep\<close>.
\<close>

datatype retry_event = Call bool "exn + bool" | Sleep nat

type_synonym 's predicate = "bool \<Rightarrow> 's \<Rightarrow> (exn + bool) \<times> 's"

text \<open>The \<open>for _ in range(n)\<close> loop; \<open>Inr True\<close> is the early \<open>return\<close>, \<open>Inr False\<close>
  the loop running to its end.\<close>

fun retry_loop :: "nat \<Rightarrow> 's predicate \<Rightarrow> 's \<Rightarrow> retry_event list
    \<Rightarrow> (exn + bool) \<times> 's \<times> retry_event list" where
  "retry_loop 0 fn s tr = (Inr False, s, tr)"
| "retry_loop (Suc n) fn s tr =
     (case fn False s of
        (Inl e, s') \<Rightarrow> (Inl e, s', tr @ [Call False (Inl e)])
      | (Inr True, s') \<Rightarrow> (Inr True, s', tr @ [Call False (Inr True)])
      | (Inr False, s') \<Rightarrow> retry_loop n fn s' (tr @ [Call False (Inr False), Sleep 1]))"

definition retry :: "'s predicate \<Rightarrow> 's \<Rightarrow> (exn + unit) \<times> 's \<times> retry_event list" where
  "retry fn s =
     (case retry_loop 900 fn s [] of
        (Inl e, s', tr) \<Rightarrow> (Inl e, s', tr)
      | (Inr True, s', tr) \<Rightarrow> (Inr (), s', tr)
      | (Inr False, s', tr) \<Rightarrow>
          (case fn True s' of
             (Inl e, s'') \<Rightarrow> (Inl e, s'', tr @ [Call True (Inl e)])
           | (Inr True, s'') \<Rightarrow> (Inr (), s'', tr @ [Call True (Inr True)])
           | (Inr False, s'') \<Rightarrow>
               (Inl (Exception ''action timed out''), s'', tr @ [Call True (Inr False)])))"

fun is_call :: "retry_event \<Rightarrow> bool" where
  "is_call (Call l r) = True"
| "is_call (Sleep n) = False"

fun call_flag :: "retry_event \<Rightarrow> bool option" where
  "call_flag (Call l r) = Some l"
| "call_flag (Sleep n) = None"

definition calls_with :: "bool \<Rightarrow> retry_event list \<Rightarrow> nat" where
  "calls_with l tr = length (filter (\<lambda>e. call_flag e = Some l) tr)"

definition always_false :: "unit predicate" where
  "always_false lastflag s = (Inr False, s)"

definition always_true :: "unit predicate" where
  "always_true lastflag s = (Inr True, s)"

subsection \<open>Logger.sanitise\<close>

text \<open>
  \<open>unicodedata.category\<close> is a table of the Python library, which gives every code point
  its two-letter general category; it is a parameter here, and \<open>[0]\<close> is the first letter.
\<close>

definition sanitise :: "('c \<Rightarrow> char \<times> char) \<Rightarrow> 'c list \<Rightarrow> 'c list" where
  "sanitise category message = filter (\<lambda>ch. fst (category ch) \<noteq> CHR ''C'') message"

subsection \<open>Key map\<close>

definition CHAR_TO_KEY :: "(string \<times> string) list" where
  "CHAR_TO_KEY =
    [(''A'', ''shift-a''), (''N'', ''shift-n''), (''-'', ''0x0C''), (''_'', ''shift-0x0C''),
     (''B'', ''shift-b''), (''O'', ''shift-o''), (''='', ''0x0D''), (''+'', ''shift-0x0D''),
     (''C'', ''shift-c''), (''P'', ''shift-p''), (''['', ''0x1A''), (''{'', ''shift-0x1A''),
     (''D'', ''shift-d''), (''Q'', ''shift-q''), ('']'', ''0x1B''), (''}'', ''shift-0x1B''),
     (''E'', ''shift-e''), (''R'', ''shift-r''), ('';'', ''0x27''), ('':'', ''shift-0x27''),
     (''F'', ''shift-f''), (''S'', ''shift-s''), ([CHR 0x27], ''0x28''), ([CHR 0x22], ''shift-0x28''),
     (''G'', ''shift-g''), (''T'', ''shift-t''), ([CHR 0x60], ''0x29''), (''~'', ''shift-0x29''),
     (''H'', ''shift-h''), (''U'', ''shift-u''), ([CHR 0x5C], ''0x2B''), (''|'', ''shift-0x2B''),
     (''I'', ''shift-i''), (''V'', ''shift-v''), ('','', ''0x33''), (''<'', ''shift-0x33''),
     (''J'', ''shift-j''), (''W'', ''shift-w''), (''.'', ''0x34''), (''>'', ''shift-0x34''),
     (''K'', ''shift-k''), (''X'', ''shift-x''), (''/'', ''0x35''), (''?'', ''shift-0x35''),
     (''L'', ''shift-l''), (''Y'', ''shift-y''), ('' '', ''spc''), (''M'', ''shift-m''),
     (''Z'', ''shift-z''), ([CHR 0x0A], ''ret''), (''!'', ''shift-0x02''), (''@'', ''shift-0x03''),
     (''#'', ''shift-0x04''), (''$'', ''shift-0x05''), (''%'', ''shift-0x06''), (''^'', ''shift-0x07''),
     (''&'', ''shift-0x08''), (''*'', ''shift-0x09''), (''('', ''shift-0x0A''), ('')'', ''shift-0x0B'')]"

text \<open>\<open>CHAR_TO_KEY.get(key, key)\<close>.\<close>

definition key_token :: "string \<Rightarrow> string" where
  "key_token key = (case map_of CHAR_TO_KEY key of Some tok \<Rightarrow> tok | None \<Rightarrow> key)"

subsection \<open>Logger\<close>

text \<open>
  The log is the list of the elements written so far. A line whose text holds a wall-clock
  duration (\<open>"(X.XX seconds)"\<close>) is a \<open>Timing\<close> event: the number is not modelled. The
  queue of serial output, filled by another thread, is left out.
\<close>

type_synonym attrs = "(string \<times> string) list"

datatype log_event = Line string attrs | Nest_head string attrs | Timing attrs | Nest_end

definition logger_log :: "string \<Rightarrow> attrs \<Rightarrow> log_event list \<Rightarrow> log_event list" where
  "logger_log message attributes lg = lg @ [Line message attributes]"

text \<open>\<open>Logger.nested\<close> up to its \<open>yield\<close>, and from there on. The second part runs only
  when the body of the \<open>with\<close> block completes: the generator has no \<open>finally\<close>.\<close>

definition nested_enter :: "string \<Rightarrow> attrs \<Rightarrow> log_event list \<Rightarrow> log_event list" where
  "nested_enter message attributes lg = lg @ [Nest_head message attributes]"

definition nested_exit :: "log_event list \<Rightarrow> log_event list" where
  "nested_exit lg = lg @ [Timing [], Nest_end]"

subsection \<open>Machine\<close>

text \<open>
  A connected socket is the list of chunks its \<open>recv\<close> calls will deliver, in order, and
  the list of messages sent on it. Once the chunks are used up \<open>recv\<close> blocks (or, on a
  closed socket, gives empty chunks for ever); a loop waiting for more does not return.
\<close>

record sock =
  rx :: "string list"
  tx :: "string list"

record popen =
  popen_args :: string
  popen_cwd :: string
  popen_env :: "string \<rightharpoonup> string"

record machine =
  name :: string
  script :: string
  state_dir :: string
  shared_dir :: string
  booted :: bool
  connected :: bool
  pid :: "nat option"
  monitor :: "sock option"
  shell :: "sock option"
  logger :: "log_event list"
  allow_reboot :: bool
  process :: "popen option"

text \<open>What the machine's surroundings give: the environment of the driver, and the process
  id and the two streams of the virtual machine that the start script brings up.\<close>

record host =
  os_environ :: "string \<rightharpoonup> string"
  vm_pid :: nat
  vm_monitor :: "string list"
  vm_shell :: "string list"

definition is_up :: "machine \<Rightarrow> bool" where
  "is_up m = (booted m \<and> connected m)"

definition machine_log :: "string \<Rightarrow> machine \<Rightarrow> machine" where
  "machine_log msg m = m\<lparr>logger := logger_log msg [(''machine'', name m)] (logger m)\<rparr>"

definition machine_nested_enter :: "string \<Rightarrow> machine \<Rightarrow> machine" where
  "machine_nested_enter msg m = m\<lparr>logger := nested_enter msg [(''machine'', name m)] (logger m)\<rparr>"

definition machine_nested_exit :: "machine \<Rightarrow> machine" where
  "machine_nested_exit m = m\<lparr>logger := nested_exit (logger m)\<rparr>"

subsubsection \<open>The name of a machine\<close>

definition newline :: char where
  "newline = CHR 0x0A"

text \<open>
  \<open>re.search("run-(.+)-vm$", cmd)\<close>. \<open>run_vm_at s\<close> is the pattern tried at the start of
  \<open>s\<close>: after \<open>run-\<close>, the group takes one or more characters other than a newline and
  is followed by \<open>-vm\<close> at the end of the text, or just before a newline that ends the
  text. \<open>search_run_vm\<close> tries the start positions from the left.
\<close>

definition run_vm_at :: "string \<Rightarrow> string option" where
  "run_vm_at s =
     (if startswith s ''run-'' then
        (let r = drop 4 s;
             r' = (if endswith r (''-vm'' @ [newline]) then butlast r else r)
         in if endswith r' ''-vm'' then
              (let x = take (length r' - 3) r'
               in if x \<noteq> [] \<and> newline \<notin> set x then Some x else None)
            else None)
      else None)"

fun search_run_vm :: "string \<Rightarrow> string option" where
  "search_run_vm [] = run_vm_at []"
| "search_run_vm (c # cs) =
     (case run_vm_at (c # cs) of Some x \<Rightarrow> Some x | None \<Rightarrow> search_run_vm cs)"

text \<open>The name set by \<open>Machine.__init__\<close>, from the string entries of \<open>args\<close>.\<close>

definition machine_name :: "(string \<rightharpoonup> string) \<Rightarrow> string" where
  "machine_name args =
     (case args ''name'' of
        Some n \<Rightarrow> n
      | None \<Rightarrow>
          (case args ''startCommand'' of
             None \<Rightarrow> ''machine''
           | Some cmd \<Rightarrow>
               if cmd = [] then ''machine''
               else (case search_run_vm cmd of Some x \<Rightarrow> x | None \<Rightarrow> ''machine'')))"

text \<open>No occurrence of \<open>run-\<close> in \<open>p @ t\<close> begins inside \<open>p\<close>.\<close>

definition no_run_before :: "string \<Rightarrow> string \<Rightarrow> bool" where
  "no_run_before p t = list_all (\<lambda>i. \<not> startswith (drop i (p @ t)) ''run-'') [0..<length p]"

text \<open>\<open>create_machine({"startCommand": s})\<close>, as the main program builds its machines.\<close>

definition create_machine_name :: "string \<Rightarrow> string" where
  "create_machine_name s = machine_name [''startCommand'' \<mapsto> s]"

subsubsection \<open>The monitor channel\<close>

fun monitor_loop :: "string list \<Rightarrow> (string \<times> string list) option" where
  "monitor_loop [] = None"
| "monitor_loop (answer # rest) =
     (if endswith answer ''(qemu) '' then Some (answer, rest) else monitor_loop rest)"

definition wait_for_monitor_prompt :: "machine \<Rightarrow> ((exn + string) \<times> machine) option" where
  "wait_for_monitor_prompt m =
     (case monitor m of
        None \<Rightarrow> Some (Inl AssertionError, m)
      | Some sk \<Rightarrow>
          (case monitor_loop (rx sk) of
             None \<Rightarrow> None
           | Some (answer, rest) \<Rightarrow> Some (Inr answer, m\<lparr>monitor := Some (sk\<lparr>rx := rest\<rparr>)\<rparr>)))"

definition send_monitor_command :: "string \<Rightarrow> machine \<Rightarrow> ((exn + string) \<times> machine) option" where
  "send_monitor_command command m =
     (let message = command @ [newline];
          m1 = machine_log (''sending monitor command: '' @ command) m
      in case monitor m1 of
           None \<Rightarrow> Some (Inl AssertionError, m1)
         | Some sk \<Rightarrow> wait_for_monitor_prompt (m1\<lparr>monitor := Some (sk\<lparr>tx := tx sk @ [message]\<rparr>)\<rparr>))"

definition send_key :: "string \<Rightarrow> machine \<Rightarrow> ((exn + string) \<times> machine) option" where
  "send_key key m = send_monitor_command (''sendkey '' @ key_token key) m"

subsubsection \<open>Starting the virtual machine\<close>

text \<open>\<open>os.path.join(a, b)\<close> and \<open>sep.join(xs)\<close>.\<close>

definition os_path_join :: "string \<Rightarrow> string \<Rightarrow> string" where
  "os_path_join a b =
     (if startswith b ''/'' \<and> b \<noteq> [] then b
      else if a = [] \<or> endswith a ''/'' then a @ b
      else a @ ''/'' @ b)"

fun str_join :: "string \<Rightarrow> string list \<Rightarrow> string" where
  "str_join sep [] = []"
| "str_join sep [x] = x"
| "str_join sep (x # y # xs) = x @ sep @ str_join sep (y # xs)"

definition qemu_options :: "host \<Rightarrow> machine \<Rightarrow> string" where
  "qemu_options h m =
     str_join '' ''
       [if allow_reboot m then [] else ''-no-reboot'',
        ''-monitor unix:'' @ os_path_join (state_dir m) ''monitor'',
        ''-chardev socket,id=shell,path='' @ os_path_join (state_dir m) ''shell'',
        ''-device virtio-serial'',
        ''-device virtconsole,chardev=shell'',
        ''-device virtio-rng-pci'',
        if os_environ h ''DISPLAY'' \<noteq> None then ''-serial stdio'' else ''-nographic'']
     @ '' ''
     @ (case os_environ h ''QEMU_OPTS'' of Some v \<Rightarrow> v | None \<Rightarrow> [])"

text \<open>The dictionary \<open>environment\<close> handed to \<open>subprocess.Popen\<close>: the three composed
  entries, then \<open>environment.update(dict(os.environ))\<close>.\<close>

definition environment :: "host \<Rightarrow> machine \<Rightarrow> (string \<rightharpoonup> string)" where
  "environment h m =
     [''QEMU_OPTS'' \<mapsto> qemu_options h m,
      ''SHARED_DIR'' \<mapsto> shared_dir m,
      ''USE_TMPDIR'' \<mapsto> ''1'']
     ++ os_environ h"

definition start :: "host \<Rightarrow> machine \<Rightarrow> ((exn + unit) \<times> machine) option" where
  "start h m =
     (if booted m then Some (Inr (), m)
      else
        (let m1 = machine_log ''starting vm'' m;
             m2 = m1\<lparr>process := Some \<lparr>popen_args = script m1, popen_cwd = state_dir m1,
                                       popen_env = environment h m1\<rparr>,
                     monitor := Some \<lparr>rx = vm_monitor h, tx = []\<rparr>,
                     shell := Some \<lparr>rx = vm_shell h, tx = []\<rparr>\<rparr>
         in case wait_for_monitor_prompt m2 of
              None \<Rightarrow> None
            | Some (Inl e, m3) \<Rightarrow> Some (Inl e, m3)
            | Some (Inr answer, m3) \<Rightarrow>
                Some (Inr (),
                  machine_log (''QEMU running (pid '' @ str_of_nat (vm_pid h) @ '')'')
                    (m3\<lparr>pid := Some (vm_pid h), booted := True\<rparr>))))"

subsubsection \<open>The shell channel\<close>

definition connect :: "host \<Rightarrow> machine \<Rightarrow> ((exn + unit) \<times> machine) option" where
  "connect h m =
     (if connected m then Some (Inr (), m)
      else
        (case start h (machine_nested_enter ''waiting for the VM to finish booting'' m) of
           None \<Rightarrow> None
         | Some (Inl e, m1) \<Rightarrow> Some (Inl e, m1)
         | Some (Inr u, m1) \<Rightarrow>
             (case shell m1 of
                None \<Rightarrow> Some (Inl (AttributeError ''shell''), m1)
              | Some sk \<Rightarrow>
                  (case rx sk of
                     [] \<Rightarrow> None
                   | banner # rest \<Rightarrow>
                       (let m2 = m1\<lparr>shell := Some (sk\<lparr>rx := rest\<rparr>)\<rparr>;
                            m3 = machine_log ''connected to guest root shell'' m2;
                            m4 = m3\<lparr>logger := logger m3 @ [Timing [(''machine'', name m3)]]\<rparr>
                        in Some (Inr (), machine_nested_exit (m4\<lparr>connected := True\<rparr>)))))))"

text \<open>
  The classes \<open>\s\<close> and \<open>\d\<close> of a Python \<open>str\<close> pattern, on the code points below 256.
\<close>

definition is_space :: "char \<Rightarrow> bool" where
  "is_space c = (of_char c \<in> set [9, 10, 11, 12, 13, 28, 29, 30, 31, 32, 133, 160 :: nat])"

definition is_digit :: "char \<Rightarrow> bool" where
  "is_digit c = (48 \<le> (of_char c :: nat) \<and> (of_char c :: nat) \<le> 57)"

text \<open>
  \<open>status_code_pattern.match(chunk)\<close> for the pattern \<open>(.*)\|\!EOF\s+(\d+)\<close>, compiled
  without flags. \<open>eof_at r\<close> is the part after the first group tried at the start of
  \<open>r\<close>: the sentinel, one or more spaces, one or more digits (the two classes are disjoint,
  so the greedy choice is the only one); it gives the second group. The first group starts
  at the start of the chunk and holds no newline; \<open>match_upto k chunk\<close> tries its lengths
  from \<open>k\<close> downwards, as the greedy star backtracks.
\<close>

definition eof_at :: "string \<Rightarrow> string option" where
  "eof_at r =
     (if startswith r ''|!EOF'' then
        (let r1 = drop 5 r;
             ds = takeWhile is_digit (dropWhile is_space r1)
         in if takeWhile is_space r1 \<noteq> [] \<and> ds \<noteq> [] then Some ds else None)
      else None)"

fun match_upto :: "nat \<Rightarrow> string \<Rightarrow> (string \<times> string) option" where
  "match_upto 0 chunk = (case eof_at chunk of Some ds \<Rightarrow> Some ([], ds) | None \<Rightarrow> None)"
| "match_upto (Suc k) chunk =
     (case eof_at (drop (Suc k) chunk) of
        Some ds \<Rightarrow> Some (take (Suc k) chunk, ds)
      | None \<Rightarrow> match_upto k chunk)"

definition status_code_pattern_match :: "string \<Rightarrow> (string \<times> string) option" where
  "status_code_pattern_match chunk =
     match_upto (length (takeWhile (\<lambda>c. c \<noteq> newline) chunk)) chunk"

text \<open>The \<open>while True\<close> loop of \<open>execute\<close>, on the chunks that \<open>recv(4096)\<close> delivers.\<close>

fun execute_loop :: "string \<Rightarrow> string list \<Rightarrow> ((int \<times> string) \<times> string list) option" where
  "execute_loop output [] = None"
| "execute_loop output (chunk # rest) =
     (case status_code_pattern_match chunk of
        Some (g1, g2) \<Rightarrow> Some ((int_of_digits g2, output @ g1), rest)
      | None \<Rightarrow> execute_loop (output @ chunk) rest)"

definition out_command :: "string \<Rightarrow> string" where
  "out_command command = ''( '' @ command @ '' ); echo '' @ [CHR 0x27] @ ''|!EOF'' @ [CHR 0x27] @ '' $?'' @ [newline]"

definition execute :: "host \<Rightarrow> string \<Rightarrow> machine \<Rightarrow> ((exn + int \<times> string) \<times> machine) option" where
  "execute h command m =
     (case connect h m of
        None \<Rightarrow> None
      | Some (Inl e, m1) \<Rightarrow> Some (Inl e, m1)
      | Some (Inr u, m1) \<Rightarrow>
          (case shell m1 of
             None \<Rightarrow> Some (Inl (AttributeError ''shell''), m1)
           | Some sk \<Rightarrow>
               (case execute_loop [] (rx sk) of
                  None \<Rightarrow> None
                | Some (res, rest) \<Rightarrow>
                    Some (Inr res,
                      m1\<lparr>shell := Some \<lparr>rx = rest, tx = tx sk @ [out_command command]\<rparr>\<rparr>))))"

subsubsection \<open>succeed and fail\<close>

definition backtick :: char where
  "backtick = CHR 0x60"

fun succeed_loop :: "host \<Rightarrow> string list \<Rightarrow> string \<Rightarrow> machine \<Rightarrow> ((exn + string) \<times> machine) option" where
  "succeed_loop h [] output m = Some (Inr output, m)"
| "succeed_loop h (command # commands) output m =
     (case execute h command (machine_nested_enter (''must succeed: '' @ command) m) of
        None \<Rightarrow> None
      | Some (Inl e, m1) \<Rightarrow> Some (Inl e, m1)
      | Some (Inr (status, out), m1) \<Rightarrow>
          if status \<noteq> 0 then
            Some (Inl (Exception (''command '' @ [backtick] @ command @ [backtick]
                         @ '' failed (exit code '' @ str_of_int status @ '')'')),
                  machine_log (''output: '' @ out) m1)
          else succeed_loop h commands (output @ out) (machine_nested_exit m1))"

definition succeed :: "host \<Rightarrow> string list \<Rightarrow> machine \<Rightarrow> ((exn + string) \<times> machine) option" where
  "succeed h commands m = succeed_loop h commands [] m"

fun fail :: "host \<Rightarrow> string list \<Rightarrow> machine \<Rightarrow> ((exn + unit) \<times> machine) option" where
  "fail h [] m = Some (Inr (), m)"
| "fail h (command # commands) m =
     (case execute h command (machine_nested_enter (''must fail: '' @ command) m) of
        None \<Rightarrow> None
      | Some (Inl e, m1) \<Rightarrow> Some (Inl e, m1)
      | Some (Inr (status, output), m1) \<Rightarrow>
          if status = 0 then
            Some (Inl (Exception (''command '' @ [backtick] @ command @ [backtick]
                         @ '' unexpectedly succeeded'')), m1)
          else fail h commands (machine_nested_exit m1))"

subsection \<open>The driver: subtests and run_tests\<close>

text \<open>
  The globals of the driver. A piece of test script is a function on them which completes
  (\<open>Inr ()\<close>) or raises (\<open>Inl e\<close>); evaluating the text of a script is not modelled.
\<close>

record driver =
  nr_tests :: int
  nr_succeeded :: int
  log_events :: "log_event list"
  machines :: "machine list"

type_synonym block = "driver \<Rightarrow> (exn + unit) \<times> driver"

text \<open>\<open>subtest\<close> up to its \<open>yield\<close>: the state in which the body of the \<open>with\<close> block starts.\<close>

definition subtest_enter :: "string \<Rightarrow> driver \<Rightarrow> driver" where
  "subtest_enter nm d =
     (let d1 = d\<lparr>log_events := nested_enter nm [] (log_events d)\<rparr>
      in d1\<lparr>nr_tests := nr_tests d1 + 1\<rparr>)"

definition subtest :: "string \<Rightarrow> block \<Rightarrow> block" where
  "subtest nm body d =
     (case body (subtest_enter nm d) of
        (Inr u, d3) \<Rightarrow>
          (Inr (), d3\<lparr>nr_succeeded := nr_succeeded d3 + 1,
                      log_events := nested_exit (log_events d3)\<rparr>)
      | (Inl e, d3) \<Rightarrow>
          (Inr (), d3\<lparr>log_events :=
                        nested_exit (logger_log (''error: '' @ exn_str e) [] (log_events d3))\<rparr>))"

text \<open>Statements one after the other: the first that raises ends the sequence.\<close>

fun statements :: "block list \<Rightarrow> block" where
  "statements [] d = (Inr (), d)"
| "statements (b # bs) d =
     (case b d of (Inl e, d') \<Rightarrow> (Inl e, d') | (Inr u, d') \<Rightarrow> statements bs d')"

definition pass :: block where
  "pass d = (Inr (), d)"

definition raise :: "exn \<Rightarrow> block" where
  "raise e d = (Inl e, d)"

text \<open>The loop of \<open>run_tests\<close> over the machines: \<open>sync\<close> on those that are up.\<close>

fun sync_machines :: "host \<Rightarrow> machine list \<Rightarrow> ((exn + unit) \<times> machine list) option" where
  "sync_machines h [] = Some (Inr (), [])"
| "sync_machines h (m # ms) =
     (if is_up m then
        (case execute h ''sync'' m of
           None \<Rightarrow> None
         | Some (Inl e, m') \<Rightarrow> Some (Inl e, m' # ms)
         | Some (Inr r, m') \<Rightarrow>
             (case sync_machines h ms of
                None \<Rightarrow> None
              | Some (r', ms') \<Rightarrow> Some (r', m' # ms')))
      else
        (case sync_machines h ms of
           None \<Rightarrow> None
         | Some (r', ms') \<Rightarrow> Some (r', m # ms')))"

text \<open>How \<open>run_tests\<close> can end other than by returning: \<open>sys.exit(code)\<close>, or an exception
  that nothing catches.\<close>

datatype abort = SysExit int | Uncaught exn

text \<open>
  \<open>tests\<close> is the script of the environment variable of that name, when it is set; \<open>repl\<close>
  stands for the interactive session that runs when it is not.
\<close>

definition run_tests :: "host \<Rightarrow> block option \<Rightarrow> (driver \<Rightarrow> driver) \<Rightarrow> driver
    \<Rightarrow> ((abort + unit) \<times> driver) option" where
  "run_tests h tests repl d =
     (let r = (case tests of
                 Some t \<Rightarrow>
                   (case t (d\<lparr>log_events := nested_enter ''running the VM test script'' [] (log_events d)\<rparr>) of
                      (Inl e, d1) \<Rightarrow> (Inl (SysExit 1), d1)
                    | (Inr u, d1) \<Rightarrow> (Inr (), d1\<lparr>log_events := nested_exit (log_events d1)\<rparr>))
               | None \<Rightarrow> (Inr (), repl d))
      in case r of
           (Inl a, d1) \<Rightarrow> Some (Inl a, d1)
         | (Inr u, d1) \<Rightarrow>
             (case sync_machines h (machines d1) of
                None \<Rightarrow> None
              | Some (Inl e, ms) \<Rightarrow> Some (Inl (Uncaught e), d1\<lparr>machines := ms\<rparr>)
              | Some (Inr u, ms) \<Rightarrow>
                  (let d2 = d1\<lparr>machines := ms\<rparr>
                   in if nr_tests d2 \<noteq> 0 then
                        Some (Inr (), d2\<lparr>log_events :=
                          logger_log (str_of_int (nr_succeeded d2) @ '' out of ''
                                       @ str_of_int (nr_tests d2) @ '' tests succeeded'') []
                            (log_events d2)\<rparr>)
                      else Some (Inr (), d2))))"

text \<open>
  The main program from \<open>nr_tests = 0\<close> on, with the exit status of the process: that of
  \<open>sys.exit\<close>, 1 after an exception that nothing catches, 0 when the program runs to its end.
\<close>

definition main :: "host \<Rightarrow> block option \<Rightarrow> (driver \<Rightarrow> driver) \<Rightarrow> log_event list \<Rightarrow> machine list
    \<Rightarrow> (int \<times> driver) option" where
  "main h tests repl lg ms =
     (case run_tests h tests repl \<lparr>nr_tests = 0, nr_succeeded = 0, log_events = lg, machines = ms\<rparr> of
        None \<Rightarrow> None
      | Some (Inl (SysExit code), d) \<Rightarrow> Some (code, d)
      | Some (Inl (Uncaught e), d) \<Rightarrow> Some (1, d)
      | Some (Inr u, d) \<Rightarrow> Some (0, d))"

text \<open>A run of subtests one after the other, as a script made of \<open>with subtest(...)\<close> blocks.\<close>

fun subtests :: "(string \<times> block) list \<Rightarrow> driver \<Rightarrow> driver" where
  "subtests [] d = d"
| "subtests ((nm, body) # ts) d = subtests ts (snd (subtest nm body d))"

text \<open>A block that leaves the two counters as it finds them.\<close>

definition keeps_counters :: "block \<Rightarrow> bool" where
  "keeps_counters body =
     (\<forall>d. nr_tests (snd (body d)) = nr_tests d \<and> nr_succeeded (snd (body d)) = nr_succeeded d)"

subsection \<open>Concrete machines\<close>

text \<open>
  \<open>Machine.__init__\<close> on the arguments \<open>{"startCommand": s}\<close> of the main program, with
  \<open>tmp_dir\<close> the temporary directory and \<open>lg\<close> the log so far. No socket is connected yet.
\<close>

definition new_machine :: "string \<Rightarrow> log_event list \<Rightarrow> string \<Rightarrow> machine" where
  "new_machine tmp_dir lg s =
     \<lparr>name = create_machine_name s,
      script = s,
      state_dir = os_path_join tmp_dir (''vm-state-'' @ create_machine_name s),
      shared_dir = os_path_join tmp_dir ''xchg-shared'',
      booted = False,
      connected = False,
      pid = None,
      monitor = None,
      shell = None,
      logger = lg,
      allow_reboot = False,
      process = None\<rparr>"

definition foo_vm :: machine where
  "foo_vm = new_machine ''/tmp'' [] ''/nix/store/x/bin/run-foo-vm''"

text \<open>A host whose virtual machine shows the monitor prompt at once and sends a banner on
  the shell stream, followed by the chunks \<open>sh\<close>.\<close>

definition host_with_shell :: "string list \<Rightarrow> host" where
  "host_with_shell sh =
     \<lparr>os_environ = Map.empty, vm_pid = 4242, vm_monitor = [''(qemu) ''],
      vm_shell = ''banner'' # sh\<rparr>"

text \<open>A host in whose environment \<open>QEMU_OPTS\<close> is set.\<close>

definition host_with_qemu_opts :: host where
  "host_with_qemu_opts =
     \<lparr>os_environ = [''QEMU_OPTS'' \<mapsto> ''-m 512''], vm_pid = 4242, vm_monitor = [''(qemu) ''],
      vm_shell = []\<rparr>"

text \<open>The machine once its monitor socket is connected and the prompt is about to arrive.\<close>

definition prompt_vm :: machine where
  "prompt_vm = foo_vm\<lparr>monitor := Some \<lparr>rx = [''(qemu) ''], tx = []\<rparr>\<rparr>"

text \<open>The globals as the main program sets them, with an empty log and no machine.\<close>

definition driver0 :: driver where
  "driver0 = \<lparr>nr_tests = 0, nr_succeeded = 0, log_events = [], machines = []\<rparr>"

section \<open>Properties\<close>

subsection \<open>Logger.sanitise\<close>

lemma count_list_filter:
  "count_list (filter P xs) x = (if P x then count_list xs x else 0)"
  by (induction xs) auto

text \<open>
  C8. For every string \<open>s\<close> (and whatever the category table is), \<open>sanitise s\<close> holds no
  code point whose general category begins with \<open>C\<close>; every other code point is kept, as
  often as it occurs and in the order of \<open>s\<close>; and \<open>sanitise\<close> is idempotent.
\<close>

theorem sanitise_strips_category_C:
  "filter (\<lambda>ch. fst (category ch) = CHR ''C'') (sanitise category s) = []
   \<and> (\<forall>ch. count_list (sanitise category s) ch
          = (if fst (category ch) = CHR ''C'' then 0 else count_list s ch))
   \<and> subseq (sanitise category s) s
   \<and> sanitise category (sanitise category s) = sanitise category s"
proof -
  have a: "filter (\<lambda>ch. fst (category ch) = CHR ''C'') (sanitise category s) = []"
    unfolding sanitise_def by (induction s) auto
  have b: "\<forall>ch. count_list (sanitise category s) ch
          = (if fst (category ch) = CHR ''C'' then 0 else count_list s ch)"
    unfolding sanitise_def by (simp add: count_list_filter)
  have c: "subseq (sanitise category s) s"
    unfolding sanitise_def by simp
  have d: "sanitise category (sanitise category s) = sanitise category s"
    unfolding sanitise_def by simp
  from a b c d show ?thesis by blast
qed

subsection \<open>retry\<close>

lemma retry_loop_shape:
  "retry_loop n fn s tr = (r, s', tr') \<Longrightarrow>
   \<exists>k fin. k \<le> n \<and> tr' = tr @ concat (replicate k [Call False (Inr False), Sleep 1]) @ fin \<and>
     (r = Inr False \<and> k = n \<and> fin = []
      \<or> r = Inr True \<and> k < n \<and> fin = [Call False (Inr True)]
      \<or> (\<exists>e. r = Inl e \<and> k < n \<and> fin = [Call False (Inl e)]))"
proof (induction n arbitrary: s tr)
  case 0
  then show ?case by auto
next
  case (Suc n)
  obtain res s1 where f: "fn False s = (res, s1)" by (cases "fn False s")
  show ?case
  proof (cases res)
    case (Inl e)
    with Suc.prems f have "r = Inl e" "tr' = tr @ [Call False (Inl e)]" by auto
    then show ?thesis by (intro exI[of _ 0] exI[of _ "[Call False (Inl e)]"]) simp
  next
    case (Inr b)
    show ?thesis
    proof (cases b)
      case True
      with Inr Suc.prems f have "r = Inr True" "tr' = tr @ [Call False (Inr True)]" by auto
      then show ?thesis by (intro exI[of _ 0] exI[of _ "[Call False (Inr True)]"]) simp
    next
      case False
      with Inr Suc.prems f
      have "retry_loop n fn s1 (tr @ [Call False (Inr False), Sleep 1]) = (r, s', tr')" by simp
      from Suc.IH[OF this] obtain k fin where
        k: "k \<le> n" and
        t: "tr' = (tr @ [Call False (Inr False), Sleep 1]) @ concat (replicate k [Call False (Inr False), Sleep 1]) @ fin" and
        c: "r = Inr False \<and> k = n \<and> fin = []
          \<or> r = Inr True \<and> k < n \<and> fin = [Call False (Inr True)]
          \<or> (\<exists>e. r = Inl e \<and> k < n \<and> fin = [Call False (Inl e)])" by blast
      show ?thesis
        apply (rule exI[of _ "Suc k"], rule exI[of _ fin])
        using k t c by auto
    qed
  qed
qed

lemma calls_with_segments:
  "calls_with l (concat (replicate k [Call False r, Sleep t]) @ fin)
     = (if l then 0 else k) + calls_with l fin"
  unfolding calls_with_def by (induction k) auto

lemma is_call_segments:
  "length (filter is_call (concat (replicate k [Call l r, Sleep t]) @ fin))
     = k + length (filter is_call fin)"
  by (induction k) auto

lemma retry_loop_always_false:
  "retry_loop n always_false s tr
     = (Inr False, s, tr @ concat (replicate n [Call False (Inr False), Sleep 1]))"
  by (induction n arbitrary: tr) (auto simp: always_false_def)

lemma retry_always_false:
  "retry always_false ()
     = (Inl (Exception ''action timed out''), (),
        concat (replicate 900 [Call False (Inr False), Sleep 1]) @ [Call True (Inr False)])"
  unfolding retry_def by (simp add: retry_loop_always_false) (simp add: always_false_def)

text \<open>
  C3, as stated, fails: on a predicate that is always false, \<open>retry\<close> calls it 900 times
  with \<open>last = False\<close> (not at most 899) and 901 times in all (not at most 900).
\<close>

theorem retry_call_bound_counterexample:
  "calls_with False (snd (snd (retry always_false ()))) = 900
   \<and> \<not> calls_with False (snd (snd (retry always_false ()))) \<le> 899
   \<and> length (filter is_call (snd (snd (retry always_false ())))) = 901
   \<and> \<not> length (filter is_call (snd (snd (retry always_false ())))) \<le> 900"
proof -
  have t: "snd (snd (retry always_false ()))
      = concat (replicate 900 [Call False (Inr False), Sleep 1]) @ [Call True (Inr False)]"
    by (simp only: retry_always_false snd_conv)
  have a: "calls_with False (snd (snd (retry always_false ()))) = 900"
    unfolding t calls_with_segments by (simp add: calls_with_def)
  have b: "length (filter is_call (snd (snd (retry always_false ())))) = 901"
    unfolding t is_call_segments by simp
  from a b show ?thesis by simp
qed

text \<open>
  C3, amended. \<open>retry\<close> calls the predicate with \<open>last = False\<close> at most 900 times, each
  false answer followed by a sleep of one second; only after 900 false answers it calls the
  predicate once more, with \<open>last = True\<close>; so there are at most 901 calls. It returns at
  the first true answer, raises "action timed out" when the call with \<open>last = True\<close>
  answers false, and an exception of the predicate ends it at once.
\<close>

theorem retry_calls:
  assumes "retry fn s = (r, s', tr)"
  shows "calls_with False tr \<le> 900 \<and> calls_with True tr \<le> 1
    \<and> length (filter is_call tr) \<le> 901
    \<and> (\<exists>k fin. k \<le> 900 \<and> tr = concat (replicate k [Call False (Inr False), Sleep 1]) @ fin \<and>
         (k < 900 \<and> fin = [Call False (Inr True)] \<and> r = Inr ()
          \<or> (\<exists>e. k < 900 \<and> fin = [Call False (Inl e)] \<and> r = Inl e)
          \<or> k = 900 \<and> fin = [Call True (Inr True)] \<and> r = Inr ()
          \<or> k = 900 \<and> fin = [Call True (Inr False)] \<and> r = Inl (Exception ''action timed out'')
          \<or> (\<exists>e. k = 900 \<and> fin = [Call True (Inl e)] \<and> r = Inl e)))"
proof -
  obtain r0 s0 tr0 where l: "retry_loop 900 fn s [] = (r0, s0, tr0)"
    by (cases "retry_loop 900 fn s []") auto
  from retry_loop_shape[OF l] obtain k fin0 where
    k: "k \<le> 900" and t0: "tr0 = concat (replicate k [Call False (Inr False), Sleep 1]) @ fin0" and
    c: "r0 = Inr False \<and> k = 900 \<and> fin0 = []
          \<or> r0 = Inr True \<and> k < 900 \<and> fin0 = [Call False (Inr True)]
          \<or> (\<exists>e. r0 = Inl e \<and> k < 900 \<and> fin0 = [Call False (Inl e)])" by auto
  obtain res s1 where f: "fn True s0 = (res, s1)" by (cases "fn True s0")
  have shape: "\<exists>fin. tr = concat (replicate k [Call False (Inr False), Sleep 1]) @ fin \<and>
         (k < 900 \<and> fin = [Call False (Inr True)] \<and> r = Inr ()
          \<or> (\<exists>e. k < 900 \<and> fin = [Call False (Inl e)] \<and> r = Inl e)
          \<or> k = 900 \<and> fin = [Call True (Inr True)] \<and> r = Inr ()
          \<or> k = 900 \<and> fin = [Call True (Inr False)] \<and> r = Inl (Exception ''action timed out'')
          \<or> (\<exists>e. k = 900 \<and> fin = [Call True (Inl e)] \<and> r = Inl e))"
    using assms l t0 c f unfolding retry_def
    by (cases res) (auto split: sum.splits bool.splits)
  then obtain fin where
    t: "tr = concat (replicate k [Call False (Inr False), Sleep 1]) @ fin" and
    d: "k < 900 \<and> fin = [Call False (Inr True)] \<and> r = Inr ()
          \<or> (\<exists>e. k < 900 \<and> fin = [Call False (Inl e)] \<and> r = Inl e)
          \<or> k = 900 \<and> fin = [Call True (Inr True)] \<and> r = Inr ()
          \<or> k = 900 \<and> fin = [Call True (Inr False)] \<and> r = Inl (Exception ''action timed out'')
          \<or> (\<exists>e. k = 900 \<and> fin = [Call True (Inl e)] \<and> r = Inl e)" by blast
  have n1: "calls_with False tr \<le> 900"
    using d k unfolding t calls_with_segments by (auto simp: calls_with_def)
  have n2: "calls_with True tr \<le> 1"
    using d k unfolding t calls_with_segments by (auto simp: calls_with_def)
  have n3: "length (filter is_call tr) \<le> 901"
    using d k unfolding t is_call_segments by auto
  from n1 n2 n3 k t d show ?thesis by blast
qed

lemma retry_always_true: "retry always_true () = (Inr (), (), [Call False (Inr True)])"
  unfolding retry_def by (simp add: always_true_def eval_nat_numeral)

theorem retry_calls_witness:
  "retry always_true () = (Inr (), (), [Call False (Inr True)])
   \<and> calls_with False [Call False (Inr True)] \<le> 900
   \<and> calls_with True [Call False (Inr True)] \<le> 1
   \<and> length (filter is_call [Call False (Inr True)]) \<le> 901"
  using retry_calls [OF retry_always_true] retry_always_true by simp

subsection \<open>The name of a machine\<close>

lemma startswith_append: "startswith (p @ s) p"
  by (simp add: startswith_def)

lemma startswith_split: "startswith s p \<Longrightarrow> s = p @ drop (length p) s"
  unfolding startswith_def by (metis append_take_drop_id)

lemma endswith_split: "endswith s p \<Longrightarrow> s = take (length s - length p) s @ p"
  unfolding endswith_def by (metis append_take_drop_id)

lemma endswith_append: "endswith (s @ p) p"
  by (simp add: endswith_def)

lemma run_vm_at_sound:
  assumes "run_vm_at s = Some x"
  shows "x \<noteq> [] \<and> newline \<notin> set x
     \<and> (s = ''run-'' @ x @ ''-vm'' \<or> s = ''run-'' @ x @ ''-vm'' @ [newline])"
proof -
  from assms have sw: "startswith s ''run-''"
    unfolding run_vm_at_def by (auto split: if_splits)
  define r where "r = drop 4 s"
  define r' where "r' = (if endswith r (''-vm'' @ [newline]) then butlast r else r)"
  from startswith_split[OF sw] have s: "s = ''run-'' @ r" by (simp add: r_def eval_nat_numeral)
  from assms sw have ew: "endswith r' ''-vm''" and x: "x = take (length r' - 3) r'"
    and ok: "x \<noteq> []" "newline \<notin> set x"
    unfolding run_vm_at_def r_def r'_def by (auto simp: Let_def split: if_splits)
  from endswith_split[OF ew] x have r': "r' = x @ ''-vm''" by (simp add: eval_nat_numeral)
  have "r = x @ ''-vm'' \<or> r = x @ ''-vm'' @ [newline]"
  proof (cases "endswith r (''-vm'' @ [newline])")
    case True
    then have e1: "r' = butlast r" by (simp add: r'_def)
    from endswith_split[OF True] have e2: "r = butlast r @ [newline]"
      by (metis append.assoc butlast_snoc)
    have "r = r' @ [newline]" by (metis e1 e2)
    then have "r = x @ ''-vm'' @ [newline]" by (metis r' append.assoc)
    then show ?thesis by blast
  next
    case False
    then show ?thesis using r' by (simp add: r'_def)
  qed
  with s ok show ?thesis by auto
qed

lemma search_run_vm_sound:
  "search_run_vm s = Some x \<Longrightarrow>
   x \<noteq> [] \<and> newline \<notin> set x
     \<and> (\<exists>p. s = p @ ''run-'' @ x @ ''-vm'' \<or> s = p @ ''run-'' @ x @ ''-vm'' @ [newline])"
proof (induction s)
  case Nil
  then show ?case by (simp add: run_vm_at_def startswith_def)
next
  case (Cons c cs)
  show ?case
  proof (cases "run_vm_at (c # cs)")
    case None
    with Cons.prems have "search_run_vm cs = Some x" by simp
    from Cons.IH[OF this] obtain p where
      "x \<noteq> []" "newline \<notin> set x"
      "cs = p @ ''run-'' @ x @ ''-vm'' \<or> cs = p @ ''run-'' @ x @ ''-vm'' @ [newline]" by blast
    then show ?thesis by (intro conjI exI[of _ "c # p"]) auto
  next
    case (Some y)
    with Cons.prems have "y = x" by simp
    with run_vm_at_sound[OF Some] show ?thesis by (intro conjI exI[of _ "[]"]) auto
  qed
qed

lemma run_vm_at_complete:
  assumes "x \<noteq> []" "newline \<notin> set x"
  shows "run_vm_at (''run-'' @ x @ ''-vm'') = Some x"
proof -
  have a: "startswith (''run-'' @ x @ ''-vm'') ''run-''" by (simp add: startswith_def)
  have b: "\<not> endswith (x @ ''-vm'') (''-vm'' @ [newline])"
    by (auto simp: endswith_def newline_def)
  have c: "endswith (x @ ''-vm'') ''-vm''" by (rule endswith_append)
  show ?thesis unfolding run_vm_at_def using a b c assms by (simp add: Let_def)
qed

lemma search_run_vm_skip:
  "no_run_before p t \<Longrightarrow> search_run_vm (p @ t) = search_run_vm t"
proof (induction p)
  case Nil
  then show ?case by simp
next
  case (Cons c p)
  from Cons.prems have all: "\<forall>i<Suc (length p). \<not> startswith (drop i ((c # p) @ t)) ''run-''"
    unfolding no_run_before_def list_all_iff by (auto simp: less_Suc_eq)
  then have h0: "\<not> startswith (c # p @ t) ''run-''" by force
  have "\<forall>i<length p. \<not> startswith (drop i (p @ t)) ''run-''"
  proof (intro allI impI)
    fix i assume "i < length p"
    then have "Suc i < Suc (length p)" by simp
    with all have "\<not> startswith (drop (Suc i) ((c # p) @ t)) ''run-''" by blast
    then show "\<not> startswith (drop i (p @ t)) ''run-''" by simp
  qed
  then have "no_run_before p t" unfolding no_run_before_def list_all_iff by simp
  from Cons.IH[OF this] have ih: "search_run_vm (p @ t) = search_run_vm t" .
  from h0 have "run_vm_at (c # p @ t) = None" by (simp add: run_vm_at_def)
  then show ?case using ih by simp
qed

lemma search_run_vm_found:
  assumes "x \<noteq> []" "newline \<notin> set x" "no_run_before p (''run-'' @ x @ ''-vm'')"
  shows "search_run_vm (p @ ''run-'' @ x @ ''-vm'') = Some x"
proof -
  have "search_run_vm (''run-'' @ x @ ''-vm'') = Some x"
    using run_vm_at_complete[OF assms(1,2)] by simp
  with search_run_vm_skip[OF assms(3)] show ?thesis by simp
qed

lemma create_machine_name_search:
  "create_machine_name s = (case search_run_vm s of Some x \<Rightarrow> x | None \<Rightarrow> ''machine'')"
  unfolding create_machine_name_def machine_name_def
  by (simp add: run_vm_at_def startswith_def)

text \<open>
  C9, as stated, fails: a start command that ends in \<open>run-foo-vm\<close> does not always give
  the name \<open>foo\<close>. The search takes the leftmost \<open>run-\<close> from which the pattern matches.
\<close>

theorem machine_name_two_runs_counterexample:
  "endswith ''/tmp/run-a/run-foo-vm'' ''run-foo-vm''
   \<and> create_machine_name ''/tmp/run-a/run-foo-vm'' = ''a/run-foo''
   \<and> create_machine_name ''/tmp/run-a/run-foo-vm'' \<noteq> ''foo''"
  by code_simp

text \<open>
  C9, amended. The name of a machine built from a start command is the group of
  \<open>run-(.+)-vm$\<close> where the search matches, and \<open>machine\<close> otherwise; the group is not
  empty, holds no newline, and stands between a \<open>run-\<close> and a \<open>-vm\<close> that ends the command
  (a final newline apart). A start command ending in \<open>run-foo-vm\<close> gives the name \<open>foo\<close>
  when no \<open>run-\<close> begins before that ending.
\<close>

theorem machine_name_from_start_command:
  "create_machine_name s = (case search_run_vm s of Some x \<Rightarrow> x | None \<Rightarrow> ''machine'')
   \<and> (\<forall>x. search_run_vm s = Some x \<longrightarrow>
         x \<noteq> [] \<and> newline \<notin> set x
         \<and> (\<exists>q. s = q @ ''run-'' @ x @ ''-vm'' \<or> s = q @ ''run-'' @ x @ ''-vm'' @ [newline]))
   \<and> (no_run_before p ''run-foo-vm'' \<longrightarrow> create_machine_name (p @ ''run-foo-vm'') = ''foo'')"
proof -
  have c: "no_run_before p ''run-foo-vm'' \<longrightarrow> create_machine_name (p @ ''run-foo-vm'') = ''foo''"
  proof
    assume "no_run_before p ''run-foo-vm''"
    then have "no_run_before p (''run-'' @ ''foo'' @ ''-vm'')" by simp
    from search_run_vm_found[OF _ _ this] have "search_run_vm (p @ ''run-foo-vm'') = Some ''foo''"
      by (simp add: newline_def)
    then show "create_machine_name (p @ ''run-foo-vm'') = ''foo''"
      by (simp add: create_machine_name_search)
  qed
  from create_machine_name_search search_run_vm_sound c show ?thesis by blast
qed

lemma no_run_before_store: "no_run_before ''/nix/store/x/bin/'' ''run-foo-vm''"
  by code_simp

lemma search_store: "search_run_vm ''/nix/store/x/bin/run-foo-vm'' = Some ''foo''"
  by code_simp

theorem machine_name_from_start_command_witness:
  "search_run_vm ''/nix/store/x/bin/run-foo-vm'' = Some ''foo''
   \<and> no_run_before ''/nix/store/x/bin/'' ''run-foo-vm''
   \<and> create_machine_name (''/nix/store/x/bin/'' @ ''run-foo-vm'') = ''foo''
   \<and> (\<exists>q. ''/nix/store/x/bin/run-foo-vm'' = q @ ''run-'' @ ''foo'' @ ''-vm''
         \<or> ''/nix/store/x/bin/run-foo-vm'' = q @ ''run-'' @ ''foo'' @ ''-vm'' @ [newline])"
  using machine_name_from_start_command [of "''/nix/store/x/bin/run-foo-vm''" "''/nix/store/x/bin/''"]
    no_run_before_store search_store
  by blast

subsection \<open>The key map\<close>

lemma distinct_keys: "distinct (map fst CHAR_TO_KEY)"
  by code_simp

lemma key_token_in_table: "(c, tok) \<in> set CHAR_TO_KEY \<Longrightarrow> key_token c = tok"
  unfolding key_token_def using map_of_is_SomeI[OF distinct_keys] by fastforce

lemma key_token_not_in_table: "k \<notin> fst ` set CHAR_TO_KEY \<Longrightarrow> key_token k = k"
  unfolding key_token_def by (simp add: map_of_eq_None_iff[symmetric])

lemma single_chars: "list_all (\<lambda>(c, tok). length c = 1) CHAR_TO_KEY"
  by code_simp

lemma send_monitor_command_tx:
  assumes "monitor m = Some sk" "send_monitor_command command m = Some (r, m')"
  shows "map_option tx (monitor m') = Some (tx sk @ [command @ [newline]])"
  using assms unfolding send_monitor_command_def wait_for_monitor_prompt_def machine_log_def
  by (auto simp: Let_def split: option.splits)

text \<open>
  C5. For every entry \<open>(c, tok)\<close> of the table, \<open>c\<close> is a single character and
  \<open>send_key c\<close> is the monitor command \<open>sendkey tok\<close>; for every string \<open>k\<close> that is not a
  key of the table, \<open>send_key k\<close> is the monitor command \<open>sendkey k\<close>. When the command
  returns, the text sent on the monitor socket is that command and a newline. Upper-case
  letters map to \<open>shift-\<close> and the lower-case letter, the space to \<open>spc\<close>, the newline to
  \<open>ret\<close>.
\<close>

theorem send_key_key_map:
  "(\<forall>(c, tok) \<in> set CHAR_TO_KEY.
       length c = 1 \<and> send_key c m = send_monitor_command (''sendkey '' @ tok) m)
   \<and> (k \<notin> fst ` set CHAR_TO_KEY \<longrightarrow> send_key k m = send_monitor_command (''sendkey '' @ k) m)
   \<and> (\<forall>sk r m'. monitor m = Some sk \<and> send_key k m = Some (r, m') \<longrightarrow>
         map_option tx (monitor m') = Some (tx sk @ [''sendkey '' @ key_token k @ [newline]]))
   \<and> map (\<lambda>c. key_token [c]) ''ABCDEFGHIJKLMNOPQRSTUVWXYZ''
        = map (\<lambda>c. ''shift-'' @ [c]) ''abcdefghijklmnopqrstuvwxyz''
   \<and> key_token '' '' = ''spc'' \<and> key_token [newline] = ''ret''"
proof -
  have a: "\<forall>(c, tok) \<in> set CHAR_TO_KEY.
       length c = 1 \<and> send_key c m = send_monitor_command (''sendkey '' @ tok) m"
    using single_chars unfolding send_key_def list_all_iff
    by (auto simp: key_token_in_table)
  have b: "k \<notin> fst ` set CHAR_TO_KEY \<longrightarrow> send_key k m = send_monitor_command (''sendkey '' @ k) m"
    unfolding send_key_def by (simp add: key_token_not_in_table)
  have c: "\<forall>sk r m'. monitor m = Some sk \<and> send_key k m = Some (r, m') \<longrightarrow>
         map_option tx (monitor m') = Some (tx sk @ [''sendkey '' @ key_token k @ [newline]])"
    unfolding send_key_def using send_monitor_command_tx by (metis append.assoc)
  have d: "map (\<lambda>c. key_token [c]) ''ABCDEFGHIJKLMNOPQRSTUVWXYZ''
        = map (\<lambda>c. ''shift-'' @ [c]) ''abcdefghijklmnopqrstuvwxyz''"
    by code_simp
  have e: "key_token '' '' = ''spc''" by code_simp
  have f: "key_token [newline] = ''ret''" by code_simp
  from a b c d e f show ?thesis by blast
qed

lemma key_A_in_table: "(''A'', ''shift-a'') \<in> set CHAR_TO_KEY" by code_simp
lemma ctrl_alt_f1_not_in_table: "''ctrl-alt-f1'' \<notin> fst ` set CHAR_TO_KEY" by code_simp
lemma prompt_vm_monitor: "monitor prompt_vm = Some \<lparr>rx = [''(qemu) ''], tx = []\<rparr>" by code_simp
lemma send_key_ctrl_alt_f1: "map_option (\<lambda>(r, m'). (r, map_option tx (monitor m'))) (send_key ''ctrl-alt-f1'' prompt_vm)
   = Some (Inr ''(qemu) '', Some [''sendkey ctrl-alt-f1'' @ [newline]])" by code_simp

theorem send_key_key_map_witness:
  "(''A'', ''shift-a'') \<in> set CHAR_TO_KEY
   \<and> send_key ''A'' prompt_vm = send_monitor_command ''sendkey shift-a'' prompt_vm
   \<and> ''ctrl-alt-f1'' \<notin> fst ` set CHAR_TO_KEY
   \<and> send_key ''ctrl-alt-f1'' prompt_vm = send_monitor_command ''sendkey ctrl-alt-f1'' prompt_vm
   \<and> monitor prompt_vm = Some \<lparr>rx = [''(qemu) ''], tx = []\<rparr>
   \<and> (\<exists>m'. send_key ''ctrl-alt-f1'' prompt_vm = Some (Inr ''(qemu) '', m')
          \<and> map_option tx (monitor m') = Some [''sendkey ctrl-alt-f1'' @ [newline]])"
proof -
  note t = send_key_key_map [of prompt_vm "''ctrl-alt-f1''"]
  from t key_A_in_table have a: "send_key ''A'' prompt_vm = send_monitor_command ''sendkey shift-a'' prompt_vm"
    by fastforce
  from t ctrl_alt_f1_not_in_table have b: "send_key ''ctrl-alt-f1'' prompt_vm = send_monitor_command ''sendkey ctrl-alt-f1'' prompt_vm"
    by simp
  from send_key_ctrl_alt_f1 obtain m' where s: "send_key ''ctrl-alt-f1'' prompt_vm = Some (Inr ''(qemu) '', m')"
    and x: "map_option tx (monitor m') = Some [''sendkey ctrl-alt-f1'' @ [newline]]"
    by (auto split: prod.splits)
  from key_A_in_table ctrl_alt_f1_not_in_table prompt_vm_monitor a b s x show ?thesis by blast
qed

subsection \<open>subtest\<close>

lemma subtest_counters:
  assumes "keeps_counters body"
  shows "fst (subtest nm body d) = Inr ()"
    and "nr_tests (snd (subtest nm body d)) = nr_tests d + 1"
    and "nr_succeeded (snd (subtest nm body d))
           = (case fst (body (subtest_enter nm d)) of Inr u \<Rightarrow> nr_succeeded d + 1 | Inl e \<Rightarrow> nr_succeeded d)"
proof -
  obtain r d3 where b: "body (subtest_enter nm d) = (r, d3)" by (cases "body (subtest_enter nm d)")
  from assms have "nr_tests (snd (body (subtest_enter nm d))) = nr_tests (subtest_enter nm d)"
    and "nr_succeeded (snd (body (subtest_enter nm d))) = nr_succeeded (subtest_enter nm d)"
    unfolding keeps_counters_def by auto
  with b have k: "nr_tests d3 = nr_tests d + 1" "nr_succeeded d3 = nr_succeeded d"
    by (auto simp: subtest_enter_def Let_def)
  show "fst (subtest nm body d) = Inr ()"
    unfolding subtest_def b by (cases r) auto
  show "nr_tests (snd (subtest nm body d)) = nr_tests d + 1"
    unfolding subtest_def b using k by (cases r) auto
  show "nr_succeeded (snd (subtest nm body d))
           = (case fst (body (subtest_enter nm d)) of Inr u \<Rightarrow> nr_succeeded d + 1 | Inl e \<Rightarrow> nr_succeeded d)"
    unfolding subtest_def b using k by (cases r) auto
qed

lemma subtest_logs_error:
  "fst (body (subtest_enter nm d)) = Inl e \<Longrightarrow>
   Line (''error: '' @ exn_str e) [] \<in> set (log_events (snd (subtest nm body d)))"
  unfolding subtest_def
  by (cases "body (subtest_enter nm d)") (auto simp: nested_exit_def logger_log_def)

lemma str_of_int_1: "str_of_int 1 = ''1''" by code_simp
lemma str_of_int_2: "str_of_int 2 = ''2''" by code_simp

lemma s6_script:
  "main h (Some (statements [subtest ''a'' (raise (Exception ''x'')), subtest ''b'' pass])) repl lg []
    = Some (0, \<lparr>nr_tests = 2, nr_succeeded = 1,
         log_events = lg @ [Nest_head ''running the VM test script'' [], Nest_head ''a'' [],
            Line ''error: x'' [], Timing [], Nest_end, Nest_head ''b'' [], Timing [], Nest_end,
            Timing [], Nest_end, Line ''1 out of 2 tests succeeded'' []],
         machines = []\<rparr>)"
  unfolding main_def run_tests_def
  by (simp add: subtest_def subtest_enter_def raise_def pass_def nested_enter_def nested_exit_def
      logger_log_def str_of_int_1 str_of_int_2)

text \<open>
  C6. \<open>subtest\<close> adds one to \<open>nr_tests\<close> on entry and leaves \<open>nr_succeeded\<close> alone there.
  Whatever the body does, the scope never raises, and after the body it changes the
  counters only by adding one to \<open>nr_succeeded\<close> when the body has completed.
  For a body that does not itself change the counters: the scope never raises; after it
  \<open>nr_tests\<close> is one more than before; \<open>nr_succeeded\<close> is one more when the body completes,
  and unchanged when the body raises, in which case the error is in the log. The script
  with one raising and one passing subtest ends with exit status 0, two tests, one
  success, and the summary line as the last line of the log.
\<close>

theorem subtest_scope:
  "nr_tests (subtest_enter nm d) = nr_tests d + 1
   \<and> nr_succeeded (subtest_enter nm d) = nr_succeeded d
   \<and> fst (subtest nm body d) = Inr ()
   \<and> nr_tests (snd (subtest nm body d)) = nr_tests (snd (body (subtest_enter nm d)))
   \<and> nr_succeeded (snd (subtest nm body d))
       = nr_succeeded (snd (body (subtest_enter nm d)))
         + (case fst (body (subtest_enter nm d)) of Inr u \<Rightarrow> 1 | Inl e \<Rightarrow> 0)
   \<and> (keeps_counters body \<longrightarrow>
        fst (subtest nm body d) = Inr ()
        \<and> nr_tests (snd (subtest nm body d)) = nr_tests d + 1
        \<and> (case fst (body (subtest_enter nm d)) of
              Inr u \<Rightarrow> nr_succeeded (snd (subtest nm body d)) = nr_succeeded d + 1
            | Inl e \<Rightarrow> nr_succeeded (snd (subtest nm body d)) = nr_succeeded d
                 \<and> Line (''error: '' @ exn_str e) [] \<in> set (log_events (snd (subtest nm body d)))))
   \<and> (\<exists>d'. main h (Some (statements [subtest ''a'' (raise (Exception ''x'')), subtest ''b'' pass]))
               repl lg [] = Some (0, d')
          \<and> nr_tests d' = 2 \<and> nr_succeeded d' = 1
          \<and> last (log_events d') = Line ''1 out of 2 tests succeeded'' [])"
proof -
  have a: "nr_tests (subtest_enter nm d) = nr_tests d + 1"
    and b: "nr_succeeded (subtest_enter nm d) = nr_succeeded d"
    by (simp_all add: subtest_enter_def Let_def)
  have s: "fst (subtest nm body d) = Inr ()
   \<and> nr_tests (snd (subtest nm body d)) = nr_tests (snd (body (subtest_enter nm d)))
   \<and> nr_succeeded (snd (subtest nm body d))
       = nr_succeeded (snd (body (subtest_enter nm d)))
         + (case fst (body (subtest_enter nm d)) of Inr u \<Rightarrow> 1 | Inl e \<Rightarrow> 0)"
    unfolding subtest_def
    by (cases "body (subtest_enter nm d)") (auto split: sum.splits)
  have c: "keeps_counters body \<longrightarrow>
        fst (subtest nm body d) = Inr ()
        \<and> nr_tests (snd (subtest nm body d)) = nr_tests d + 1
        \<and> (case fst (body (subtest_enter nm d)) of
              Inr u \<Rightarrow> nr_succeeded (snd (subtest nm body d)) = nr_succeeded d + 1
            | Inl e \<Rightarrow> nr_succeeded (snd (subtest nm body d)) = nr_succeeded d
                 \<and> Line (''error: '' @ exn_str e) [] \<in> set (log_events (snd (subtest nm body d))))"
    using subtest_counters[of body nm d] subtest_logs_error[of body nm d]
    by (auto split: sum.splits)
  have e: "\<exists>d'. main h (Some (statements [subtest ''a'' (raise (Exception ''x'')), subtest ''b'' pass]))
               repl lg [] = Some (0, d')
          \<and> nr_tests d' = 2 \<and> nr_succeeded d' = 1
          \<and> last (log_events d') = Line ''1 out of 2 tests succeeded'' []"
    unfolding s6_script by simp
  from a b s c e show ?thesis by blast
qed

lemma keeps_raise: "keeps_counters (raise e)"
  by (simp add: keeps_counters_def raise_def)

lemma keeps_pass: "keeps_counters pass"
  by (simp add: keeps_counters_def pass_def)

theorem subtest_scope_witness:
  "keeps_counters (raise (Exception ''x''))
   \<and> fst (raise (Exception ''x'') (subtest_enter ''a'' driver0)) = Inl (Exception ''x'')
   \<and> fst (subtest ''a'' (raise (Exception ''x'')) driver0) = Inr ()
   \<and> nr_tests (snd (subtest ''a'' (raise (Exception ''x'')) driver0)) = 1
   \<and> nr_succeeded (snd (subtest ''a'' (raise (Exception ''x'')) driver0)) = 0
   \<and> Line ''error: x'' [] \<in> set (log_events (snd (subtest ''a'' (raise (Exception ''x'')) driver0)))"
proof -
  have r: "fst (raise (Exception ''x'') (subtest_enter ''a'' driver0)) = Inl (Exception ''x'')"
    by (simp add: raise_def)
  have z: "nr_tests driver0 = 0" "nr_succeeded driver0 = 0" by (simp_all add: driver0_def)
  note t = subtest_scope [of "''a''" driver0 "raise (Exception ''x'')"]
  from t keeps_raise have
    "fst (subtest ''a'' (raise (Exception ''x'')) driver0) = Inr ()
     \<and> nr_tests (snd (subtest ''a'' (raise (Exception ''x'')) driver0)) = nr_tests driver0 + 1
     \<and> (case fst (raise (Exception ''x'') (subtest_enter ''a'' driver0)) of
              Inr u \<Rightarrow> nr_succeeded (snd (subtest ''a'' (raise (Exception ''x'')) driver0)) = nr_succeeded driver0 + 1
            | Inl e \<Rightarrow> nr_succeeded (snd (subtest ''a'' (raise (Exception ''x'')) driver0)) = nr_succeeded driver0
                 \<and> Line (''error: '' @ exn_str e) [] \<in> set (log_events (snd (subtest ''a'' (raise (Exception ''x'')) driver0))))"
    by blast
  with r z keeps_raise show ?thesis by simp
qed

subsection \<open>The counters\<close>

lemma subtest_invariant:
  assumes "keeps_counters body"
  shows "nr_tests d \<le> nr_tests (snd (subtest nm body d))"
    and "nr_succeeded d \<le> nr_succeeded (snd (subtest nm body d))"
    and "nr_succeeded (snd (subtest nm body d)) - nr_succeeded d
           \<le> nr_tests (snd (subtest nm body d)) - nr_tests d"
  using subtest_counters(2,3)[OF assms, of nm d]
  by (auto split: sum.splits)

lemma subtests_invariant:
  assumes "\<forall>(nm, body) \<in> set ts. keeps_counters body"
  shows "nr_tests (subtests ts d) = nr_tests d + int (length ts)
    \<and> nr_succeeded d \<le> nr_succeeded (subtests ts d)
    \<and> nr_succeeded (subtests ts d) - nr_succeeded d \<le> int (length ts)"
  using assms
proof (induction ts arbitrary: d)
  case Nil
  then show ?case by simp
next
  case (Cons t ts)
  obtain nm body where t: "t = (nm, body)" by (cases t)
  from Cons.prems t have kb: "keeps_counters body" and rest: "\<forall>(nm, body) \<in> set ts. keeps_counters body"
    by auto
  note ih = Cons.IH[OF rest, of "snd (subtest nm body d)"]
  note st = subtest_invariant[OF kb, where d=d and nm=nm] subtest_counters(2)[OF kb, where d=d and nm=nm]
  show ?case unfolding t using ih st by auto
qed

text \<open>
  C10. Across one subtest whose body leaves the counters alone, neither counter decreases
  and \<open>0 \<le> nr_succeeded \<le> nr_tests\<close> is kept; after any sequence of such subtests, started
  where \<open>0 \<le> nr_succeeded \<le> nr_tests\<close> holds (as it does for the initial zeros), it still
  holds, and neither counter is below its starting value.
\<close>

theorem counters_invariant:
  "(keeps_counters body \<longrightarrow>
       nr_tests d \<le> nr_tests (snd (subtest nm body d))
       \<and> nr_succeeded d \<le> nr_succeeded (snd (subtest nm body d))
       \<and> (0 \<le> nr_succeeded d \<and> nr_succeeded d \<le> nr_tests d \<longrightarrow>
            0 \<le> nr_succeeded (snd (subtest nm body d))
            \<and> nr_succeeded (snd (subtest nm body d)) \<le> nr_tests (snd (subtest nm body d))))
   \<and> ((\<forall>(nm, body) \<in> set ts. keeps_counters body) \<and> 0 \<le> nr_succeeded d \<and> nr_succeeded d \<le> nr_tests d \<longrightarrow>
        0 \<le> nr_succeeded (subtests ts d)
        \<and> nr_succeeded (subtests ts d) \<le> nr_tests (subtests ts d)
        \<and> nr_tests d \<le> nr_tests (subtests ts d)
        \<and> nr_succeeded d \<le> nr_succeeded (subtests ts d))"
proof -
  have a: "keeps_counters body \<longrightarrow>
       nr_tests d \<le> nr_tests (snd (subtest nm body d))
       \<and> nr_succeeded d \<le> nr_succeeded (snd (subtest nm body d))
       \<and> (0 \<le> nr_succeeded d \<and> nr_succeeded d \<le> nr_tests d \<longrightarrow>
            0 \<le> nr_succeeded (snd (subtest nm body d))
            \<and> nr_succeeded (snd (subtest nm body d)) \<le> nr_tests (snd (subtest nm body d)))"
    using subtest_invariant[where body=body and d=d and nm=nm] by auto
  have b: "(\<forall>(nm, body) \<in> set ts. keeps_counters body) \<and> 0 \<le> nr_succeeded d \<and> nr_succeeded d \<le> nr_tests d \<longrightarrow>
        0 \<le> nr_succeeded (subtests ts d)
        \<and> nr_succeeded (subtests ts d) \<le> nr_tests (subtests ts d)
        \<and> nr_tests d \<le> nr_tests (subtests ts d)
        \<and> nr_succeeded d \<le> nr_succeeded (subtests ts d)"
    using subtests_invariant[of ts d] by auto
  from a b show ?thesis by blast
qed

lemma two_subtests:
  "nr_tests (subtests [(''a'', raise (Exception ''x'')), (''b'', pass)] driver0) = 2
   \<and> nr_succeeded (subtests [(''a'', raise (Exception ''x'')), (''b'', pass)] driver0) = 1"
  by code_simp

theorem counters_invariant_witness:
  "keeps_counters pass
   \<and> keeps_counters (raise (Exception ''x''))
   \<and> 0 \<le> nr_succeeded driver0 \<and> nr_succeeded driver0 \<le> nr_tests driver0
   \<and> nr_tests (subtests [(''a'', raise (Exception ''x'')), (''b'', pass)] driver0) = 2
   \<and> nr_succeeded (subtests [(''a'', raise (Exception ''x'')), (''b'', pass)] driver0) = 1
   \<and> nr_succeeded (subtests [(''a'', raise (Exception ''x'')), (''b'', pass)] driver0)
        \<le> nr_tests (subtests [(''a'', raise (Exception ''x'')), (''b'', pass)] driver0)
   \<and> nr_tests driver0 \<le> nr_tests (snd (subtest ''b'' pass driver0))"
proof -
  have h: "\<forall>(nm, body) \<in> set [(''a'', raise (Exception ''x'')), (''b'', pass)]. keeps_counters body"
    using keeps_raise keeps_pass by simp
  have z: "0 \<le> nr_succeeded driver0 \<and> nr_succeeded driver0 \<le> nr_tests driver0"
    by (simp add: driver0_def)
  from counters_invariant [of pass driver0 "''b''" "[(''a'', raise (Exception ''x'')), (''b'', pass)]"]
    h z keeps_pass keeps_raise two_subtests
  show ?thesis by simp
qed


subsection \<open>The monitor prompt\<close>

text \<open>
  C2. Where the prompt comes in one chunk, that chunk is returned. Where the text comes in
  two chunks, \<open>wait_for_monitor_prompt\<close> returns the last chunk only, not the text read
  since the call began; and where the prompt itself is split over two chunks, it does not
  return at all, although the text read so far ends with the prompt.
\<close>

theorem wait_for_monitor_prompt_last_chunk:
  "map_option fst (wait_for_monitor_prompt
      (foo_vm\<lparr>monitor := Some \<lparr>rx = [''ready'' @ [newline], ''(qemu) ''], tx = []\<rparr>\<rparr>))
     = Some (Inr ''(qemu) '')
   \<and> wait_for_monitor_prompt (foo_vm\<lparr>monitor := Some \<lparr>rx = [''(qe'', ''mu) ''], tx = []\<rparr>\<rparr>) = None
   \<and> map_option fst (wait_for_monitor_prompt
      (foo_vm\<lparr>monitor := Some \<lparr>rx = [''ready'' @ [newline] @ ''(qemu) ''], tx = []\<rparr>\<rparr>))
     = Some (Inr (''ready'' @ [newline] @ ''(qemu) ''))"
  by code_simp

subsection \<open>The environment of the virtual machine\<close>

lemma environment_os_environ_wins: "os_environ h k = Some v \<Longrightarrow> environment h m k = Some v"
  unfolding environment_def by (simp add: map_add_def)

lemma environment_composed:
  "os_environ h ''QEMU_OPTS'' = None \<Longrightarrow> environment h m ''QEMU_OPTS'' = Some (qemu_options h m)"
  unfolding environment_def by (simp add: map_add_def)

text \<open>
  C4. With \<open>QEMU_OPTS=-m 512\<close> in the environment of the driver, the process that \<open>start\<close>
  spawns sees \<open>-m 512\<close> as its \<open>QEMU_OPTS\<close>, not the composed option string.
\<close>

theorem start_keeps_old_QEMU_OPTS:
  "(case start host_with_qemu_opts foo_vm of
      Some (Inr u, m') \<Rightarrow>
        (case process m' of
           Some p \<Rightarrow> popen_env p ''QEMU_OPTS'' = Some ''-m 512''
             \<and> popen_env p ''QEMU_OPTS'' \<noteq> Some (qemu_options host_with_qemu_opts foo_vm)
         | None \<Rightarrow> False)
    | _ \<Rightarrow> False)
   \<and> qemu_options host_with_qemu_opts foo_vm = ''-no-reboot -monitor unix:/tmp/vm-state-foo/monitor -chardev socket,id=shell,path=/tmp/vm-state-foo/shell -device virtio-serial -device virtconsole,chardev=shell -device virtio-rng-pci -nographic -m 512''"
  by code_simp

subsection \<open>The shell channel\<close>

lemma out_command_echo_hello:
  "out_command ''echo hello'' = ''( echo hello ); echo '' @ [CHR 0x27] @ ''|!EOF'' @ [CHR 0x27] @ '' $?'' @ [newline]"
  by (simp add: out_command_def)

lemma execute_loop_two_chunks:
  "execute_loop [] [''hello'' @ [newline], ''|!EOF 0'' @ [newline]] = Some ((0, ''hello'' @ [newline]), [])"
  by code_simp

lemma execute_loop_same_line:
  "execute_loop [] [''hello|!EOF 0'' @ [newline]] = Some ((0, ''hello''), [])"
  by code_simp

text \<open>
  C1. On a shell stream that gives \<open>"hello\n|!EOF 0\n"\<close> in one chunk, the pattern does not
  match the chunk (its first group cannot cross the newline), and \<open>execute("echo hello")\<close>
  does not return.
\<close>

theorem execute_one_chunk:
  "status_code_pattern_match (''hello'' @ [newline] @ ''|!EOF 0'' @ [newline]) = None
   \<and> execute (host_with_shell [''hello'' @ [newline] @ ''|!EOF 0'' @ [newline]]) ''echo hello'' foo_vm = None"
  by code_simp

text \<open>
  C7. On a shell stream that gives \<open>"oops\n|!EOF 2\n"\<close> in one chunk, neither \<open>succeed\<close> nor
  \<open>fail\<close> returns or raises.
\<close>

theorem succeed_fail_one_chunk:
  "succeed (host_with_shell [''oops'' @ [newline] @ ''|!EOF 2'' @ [newline]]) [''cmd''] foo_vm = None
   \<and> fail (host_with_shell [''oops'' @ [newline] @ ''|!EOF 2'' @ [newline]]) [''cmd''] foo_vm = None"
  by code_simp

end
